theory Spec2Isabelle
  imports Complex_Main
begin

section \<open>The form previewer of \<open>FormPreviewer.tsx\<close>\<close>

text \<open>
  The component keeps three pieces of state through hooks of the \<open>react-use\<close> library:
  the persisted mapping of drafts (\<open>useLocalStorage\<close>), the draft of the form on screen
  (\<open>useMap\<close>) and the set of ids of fields that failed validation (\<open>useSet\<close>), besides a
  busy flag (\<open>useState\<close>). Its handlers \<open>onChange\<close>, \<open>onVerify\<close>, \<open>onReset\<close> and
  \<open>onSubmit\<close> are modelled as functions from the state before a handler runs to the state
  after it; callbacks handed to \<open>setTimeout\<close> and the rest of \<open>onSubmit\<close> behind its
  \<open>await\<close> are kept in the state as pending continuations and run by \<open>fire\<close>.
\<close>

subsection \<open>Values\<close>

text \<open>
  A JavaScript number is a double: a finite value (a rational; no arithmetic is done on
  field values, so rounding plays no part), \<open>NaN\<close> or an infinity. Negative zero is
  identified with zero, which it equals and as which JSON writes it.
\<close>

datatype number = Finite rat | NaN | PosInfinity | NegInfinity

text \<open>
  A field value has the TypeScript type \<open>unknown\<close>. The model has the values JSON can
  carry, \<open>undefined\<close>, the numbers JSON cannot carry, and function objects (what a member
  inherited from \<open>Object.prototype\<close> reads as). An object lists its own properties and
  is plain data: it is turned into text by the inherited \<open>toString\<close>. Bigints and symbols
  are not modelled.
\<close>

datatype jsval =
    JUndefined
  | JNull
  | JBool bool
  | JNum number
  | JStr string
  | JArr "jsval list"
  | JObj "(string \<times> jsval) list"
  | JFunction

text \<open>\<open>value == null\<close>: true of \<open>null\<close> and of \<open>undefined\<close> only.\<close>

fun is_nullish :: "jsval \<Rightarrow> bool" where
  "is_nullish JUndefined = True"
| "is_nullish JNull = True"
| "is_nullish (JBool b) = False"
| "is_nullish (JNum n) = False"
| "is_nullish (JStr s) = False"
| "is_nullish (JArr xs) = False"
| "is_nullish (JObj kvs) = False"
| "is_nullish JFunction = False"

text \<open>
  Whether the text that \<open>Array.prototype.join\<close> writes for an element is empty:
  \<open>null\<close> and \<open>undefined\<close> are written as nothing, a string as itself, an array as its
  own \<open>join(',')\<close> (empty when it has no element, or one element written as nothing),
  and a boolean, a number, an object or a function as a non-empty text.
\<close>

fun joined_empty :: "jsval \<Rightarrow> bool" where
  "joined_empty JUndefined = True"
| "joined_empty JNull = True"
| "joined_empty (JBool b) = False"
| "joined_empty (JNum n) = False"
| "joined_empty (JStr s) = (s = [])"
| "joined_empty (JArr []) = True"
| "joined_empty (JArr [x]) = joined_empty x"
| "joined_empty (JArr (x # y # zs)) = False"
| "joined_empty (JObj kvs) = False"
| "joined_empty JFunction = False"

text \<open>
  \<open>value == ''\<close>, JavaScript's loose equality with the empty string: \<open>null\<close> and
  \<open>undefined\<close> are loosely equal to no string; a number is compared with
  \<open>Number('')\<close>, which is \<open>0\<close> (and \<open>NaN\<close> equals nothing); a boolean is turned into
  \<open>0\<close> or \<open>1\<close> first; an array is compared through its text; the text of an object is
  \<open>[object Object]\<close> and that of a function is its source.
\<close>

fun loose_eq_empty :: "jsval \<Rightarrow> bool" where
  "loose_eq_empty JUndefined = False"
| "loose_eq_empty JNull = False"
| "loose_eq_empty (JBool b) = (\<not> b)"
| "loose_eq_empty (JNum n) = (n = Finite 0)"
| "loose_eq_empty (JStr s) = (s = [])"
| "loose_eq_empty (JArr xs) = joined_empty (JArr xs)"
| "loose_eq_empty (JObj kvs) = False"
| "loose_eq_empty JFunction = False"

subsection \<open>What JSON keeps\<close>

text \<open>
  \<open>useLocalStorage\<close> of \<open>react-use\<close> keeps \<open>JSON.parse(JSON.stringify(value))\<close> of the
  value it is given, as its state and in the storage medium. \<open>JSON.stringify\<close> leaves out
  a property whose value is \<open>undefined\<close> or a function, writes such an element of an array
  as \<open>null\<close>, and writes \<open>NaN\<close> and the infinities as \<open>null\<close>.
\<close>

fun json_omits :: "jsval \<Rightarrow> bool" where
  "json_omits JUndefined = True"
| "json_omits JFunction = True"
| "json_omits JNull = False"
| "json_omits (JBool b) = False"
| "json_omits (JNum n) = False"
| "json_omits (JStr s) = False"
| "json_omits (JArr xs) = False"
| "json_omits (JObj kvs) = False"

definition json_element :: "jsval \<Rightarrow> jsval" where
  "json_element v = (if json_omits v then JNull else v)"

fun json_number :: "number \<Rightarrow> jsval" where
  "json_number (Finite q) = JNum (Finite q)"
| "json_number NaN = JNull"
| "json_number PosInfinity = JNull"
| "json_number NegInfinity = JNull"

text \<open>
  The value read back. \<open>undefined\<close> and functions are passed through here and dealt with
  where they stand, as an element or as a property.
\<close>

primrec json_value :: "jsval \<Rightarrow> jsval" where
  "json_value JUndefined = JUndefined"
| "json_value JNull = JNull"
| "json_value (JBool b) = JBool b"
| "json_value (JNum n) = json_number n"
| "json_value (JStr s) = JStr s"
| "json_value (JArr xs) = JArr (map json_element (map json_value xs))"
| "json_value (JObj kvs) =
     JObj (filter (\<lambda>kv. \<not> json_omits (snd kv)) (map (map_prod id json_value) kvs))"
| "json_value JFunction = JFunction"

subsection \<open>Objects and their keys\<close>

type_synonym draft = "string \<rightharpoonup> jsval"

type_synonym store = "string \<rightharpoonup> draft"

definition json_draft :: "draft \<Rightarrow> draft" where
  "json_draft d =
     (\<lambda>k. case d k of
            None \<Rightarrow> None
          | Some v \<Rightarrow> if json_omits v then None else Some (json_value v))"

definition json_store :: "store \<Rightarrow> store" where
  "json_store m = (\<lambda>k. map_option json_draft (m k))"

text \<open>
  The members every plain object inherits from \<open>Object.prototype\<close>. A draft, the persisted
  mapping and \<open>view.columnMeta\<close> are plain objects; a map of the model holds an object's own
  properties.
\<close>

definition inherited_members :: "string list" where
  "inherited_members =
     [''constructor'', ''__defineGetter__'', ''__defineSetter__'', ''hasOwnProperty'',
      ''__lookupGetter__'', ''__lookupSetter__'', ''isPrototypeOf'', ''propertyIsEnumerable'',
      ''toString'', ''valueOf'', ''__proto__'', ''toLocaleString'']"

definition inherited :: "string \<Rightarrow> bool" where
  "inherited k = (k \<in> set inherited_members)"

text \<open>
  \<open>formData[fieldId]\<close>: the object's own property if it has one, else the inherited
  member of that name (a function; for \<open>__proto__\<close> the prototype object), else
  \<open>undefined\<close>.
\<close>

definition prop_of :: "draft \<Rightarrow> string \<Rightarrow> jsval" where
  "prop_of d k =
     (case d k of
        Some v \<Rightarrow> v
      | None \<Rightarrow> if inherited k then (if k = ''__proto__'' then JObj [] else JFunction)
                else JUndefined)"

subsection \<open>Props, context and state\<close>

record field_descriptor =
  field_id :: string
  isComputed :: bool
  isLookup :: bool

text \<open>An entry of \<open>view.columnMeta\<close>; the component reads its \<open>required\<close> flag only.\<close>

record column =
  required :: bool

text \<open>The promise \<open>props.submit\<close> returns is fulfilled or rejected.\<close>

datatype outcome = Fulfilled | Rejected

text \<open>
  What the component is given: \<open>localKey\<close> is \<open>generateUniqLocalKey(tableId, view?.id)\<close>,
  \<open>fields'\<close> is the list \<open>fields\<close> that \<open>useFields()\<close> returns, \<open>columnMeta\<close> is
  \<open>view.columnMeta\<close>, and \<open>submit\<close> is the optional prop, a collaborator that is handed a
  draft and whose promise settles one way or the other.

  \<open>omit_path_draft\<close> and \<open>omit_path_store\<close> stand for a part of the \<open>lodash\<close> library that
  is not modelled: what \<open>omit\<close> returns for a key that it may read as a property path and
  that the model does not follow (see \<open>omit_draft\<close> and \<open>omit_store\<close> below).
\<close>

record view_env =
  localKey :: string
  fields' :: "field_descriptor list"
  columnMeta :: "string \<rightharpoonup> column"
  submit :: "(draft \<Rightarrow> outcome) option"
  omit_path_draft :: "string \<Rightarrow> draft \<Rightarrow> draft"
  omit_path_store :: "string \<Rightarrow> store \<Rightarrow> store"

datatype js_error = TypeError

text \<open>What the handlers do to the world outside the component's state, in order.\<close>

datatype effect =
    ScrollIntoView string
  | SubmitCall draft
  | ScrollToTop
  | Toast

fun is_submit_call :: "effect \<Rightarrow> bool" where
  "is_submit_call (SubmitCall d) = True"
| "is_submit_call (ScrollIntoView i) = False"
| "is_submit_call ScrollToTop = False"
| "is_submit_call Toast = False"

text \<open>
  A pending continuation. A closure keeps the \<open>formData\<close> and \<open>formDataMap\<close> of the
  render it was created in, so each continuation carries what it captured:
  \<^item> \<open>DeferredWrite m\<close>: the \<open>setTimeout(() => setFormDataMap(m))\<close> of \<open>onChange\<close>;
  \<^item> \<open>AfterSubmit r m\<close>: the part of \<open>onSubmit\<close> behind \<open>await submit(formData)\<close>, where
    \<open>r\<close> is how the promise settles and \<open>m\<close> the captured \<open>formDataMap\<close>;
  \<^item> \<open>DelayedReset m\<close>: the callback of \<open>setTimeout(..., 1000)\<close> in \<open>onSubmit\<close>.
\<close>

datatype task =
    DeferredWrite store
  | AfterSubmit outcome store
  | DelayedReset store

text \<open>
  The state of a mounted component. \<open>formDataMap\<close> is the state of \<open>useLocalStorage\<close>,
  which \<open>setFormDataMap\<close> replaces whole and writes through to the storage medium (taken
  to be available). \<open>formData\<close> is the state of \<open>useMap\<close> and \<open>initialMap\<close> the map that hook
  was given when the component mounted: the hook's \<open>reset\<close> is \<open>() => set(initialMap)\<close>.
  \<open>errors\<close> is the state of \<open>useSet\<close>, whose initial set is \<open>new Set([])\<close>.
\<close>

record form_state =
  formDataMap :: store
  formData :: draft
  initialMap :: draft
  errors :: "string set"
  loading :: bool
  pending :: "task list"
  effects :: "effect list"

text \<open>
  The first render (lines 27 to 37): the draft is seeded with
  \<open>formDataMap?.[localKey] ?? {}\<close>. When the persisted mapping has no entry of its own
  under the key and the key names an inherited member, the seed is that member, a function
  and no draft: the model has no state for it and gives \<open>None\<close>.
\<close>

definition mount :: "view_env \<Rightarrow> store \<Rightarrow> form_state option" where
  "mount env stored =
     (case stored (localKey env) of
        Some d \<Rightarrow>
          Some \<lparr> formDataMap = stored, formData = d, initialMap = d, errors = {},
                 loading = False, pending = [], effects = [] \<rparr>
      | None \<Rightarrow>
          if inherited (localKey env) then None
          else
            Some \<lparr> formDataMap = stored, formData = Map.empty, initialMap = Map.empty,
                   errors = {}, loading = False, pending = [], effects = [] \<rparr>)"

subsection \<open>\<open>omit\<close> of lodash\<close>

text \<open>
  \<open>omit(object, key)\<close> copies the object and deletes \<open>key\<close> from the copy, where a string
  key is first turned into a path (\<open>castPath\<close>): it stays one key when \<open>isKey\<close> holds, which
  it does when the key has no \<open>.\<close> and no \<open>[\<close> (the pattern \<open>reIsDeepProp\<close> needs
  one) or is a property of the object, its own or inherited; otherwise \<open>stringToPath\<close>
  splits it, and the property at the end of the path is deleted inside the copy.
\<close>

definition single_key :: "string \<Rightarrow> bool \<Rightarrow> bool" where
  "single_key k own =
     ((CHR ''.'' \<notin> set k \<and> CHR ''['' \<notin> set k) \<or> own \<or> inherited k)"

text \<open>
  A key of two non-empty parts around one dot, without brackets: \<open>stringToPath\<close> gives
  the two parts.
\<close>

definition split_dotted :: "string \<Rightarrow> (string \<times> string) option" where
  "split_dotted k =
     (let p1 = takeWhile (\<lambda>c. c \<noteq> CHR ''.'') k;
          rest = dropWhile (\<lambda>c. c \<noteq> CHR ''.'') k
      in case rest of
           [] \<Rightarrow> None
         | dot # p2 \<Rightarrow>
             if p1 \<noteq> [] \<and> p2 \<noteq> [] \<and> CHR ''.'' \<notin> set p2
                \<and> CHR ''['' \<notin> set k \<and> CHR '']'' \<notin> set k
             then Some (p1, p2) else None)"

text \<open>
  \<open>omit(formData, fieldId)\<close>. A single key is deleted; for any other key the result is
  left to \<open>omit_path_draft\<close>.
\<close>

definition omit_draft :: "view_env \<Rightarrow> string \<Rightarrow> draft \<Rightarrow> draft" where
  "omit_draft env k d =
     (if single_key k (d k \<noteq> None) then d(k := None) else omit_path_draft env k d)"

text \<open>
  \<open>omit(formDataMap, [localKey])\<close>. A single key is deleted. A key \<open>p1.p2\<close> that is no
  single key is the path from the entry under \<open>p1\<close> to its property \<open>p2\<close>, which is
  deleted from that entry; without an entry under \<open>p1\<close> nothing is deleted, unless \<open>p1\<close>
  names an inherited member, a case left, like every other key, to \<open>omit_path_store\<close>.
\<close>

definition omit_store :: "view_env \<Rightarrow> string \<Rightarrow> store \<Rightarrow> store" where
  "omit_store env k m =
     (if single_key k (m k \<noteq> None) then m(k := None)
      else
        (case split_dotted k of
           None \<Rightarrow> omit_path_store env k m
         | Some (p1, p2) \<Rightarrow>
             (case m p1 of
                Some d \<Rightarrow> m(p1 \<mapsto> d(p2 := None))
              | None \<Rightarrow> if inherited p1 then omit_path_store env k m else m)))"

subsection \<open>The handlers\<close>

definition visibleFields :: "view_env \<Rightarrow> field_descriptor list" where
  "visibleFields env = filter (\<lambda>f. \<not> isComputed f \<and> \<not> isLookup f) (fields' env)"

text \<open>
  The \<open>reduce\<close> of \<open>onVerify\<close>. \<open>columnMeta[field.id]\<close> is the entry of the field if
  \<open>columnMeta\<close> has one; else, for an id that names an inherited member, that member, whose
  \<open>required\<close> is \<open>undefined\<close>; else \<open>undefined\<close>, and reading \<open>required\<close> of it throws a
  \<open>TypeError\<close>.
\<close>

fun requiredFieldIds ::
  "(string \<rightharpoonup> column) \<Rightarrow> field_descriptor list \<Rightarrow> string list \<Rightarrow> js_error + string list" where
  "requiredFieldIds cm [] acc = Inr acc"
| "requiredFieldIds cm (f # fs) acc =
     (case cm (field_id f) of
        Some c \<Rightarrow> requiredFieldIds cm fs (if required c then acc @ [field_id f] else acc)
      | None \<Rightarrow>
          if inherited (field_id f) then requiredFieldIds cm fs acc else Inl TypeError)"

text \<open>
  The \<open>forEach\<close> of \<open>onVerify\<close>, over the pair of \<open>firstErrorFieldId\<close> and the error set.
  \<open>!firstErrorFieldId\<close> holds of the empty string only.
\<close>

fun mark_missing :: "draft \<Rightarrow> string list \<Rightarrow> string \<times> string set \<Rightarrow> string \<times> string set" where
  "mark_missing d [] acc = acc"
| "mark_missing d (fieldId # rest) (firstErrorFieldId, errs) =
     (if \<not> is_nullish (prop_of d fieldId) then mark_missing d rest (firstErrorFieldId, errs)
      else mark_missing d rest
             (if firstErrorFieldId = [] then fieldId else firstErrorFieldId, insert fieldId errs))"

text \<open>
  \<open>onVerify\<close> returns the state and either the boolean the source returns or the error it
  throws. \<open>resetErrors\<close> and \<open>addError\<close> are functional updates of the hook's state, so the
  marks are added to the reset set.
\<close>

definition onVerify :: "view_env \<Rightarrow> form_state \<Rightarrow> form_state \<times> (js_error + bool)" where
  "onVerify env s =
     (let s0 = s\<lparr>errors := {}\<rparr> in
      case requiredFieldIds (columnMeta env) (visibleFields env) [] of
        Inl e \<Rightarrow> (s0, Inl e)
      | Inr ids \<Rightarrow>
          if ids = [] then (s0, Inr True)
          else
            (case mark_missing (formData s) ids ([], {}) of
               (firstErrorFieldId, errs) \<Rightarrow>
                 if firstErrorFieldId = [] then (s0\<lparr>errors := errs\<rparr>, Inr True)
                 else
                   (s0\<lparr>errors := errs,
                       effects := effects s @ [ScrollIntoView firstErrorFieldId]\<rparr>,
                    Inr False)))"

text \<open>
  \<open>onChange\<close>. \<open>removeFormData\<close> and \<open>setFormData\<close> are the \<open>remove\<close> and \<open>set\<close> of
  \<open>useMap\<close>, which drop and set one own key of the draft; the deferred write is computed
  from the captured \<open>formDataMap\<close> and \<open>formData\<close>, with \<open>omit\<close> in the null branch.
\<close>

definition onChange :: "view_env \<Rightarrow> string \<Rightarrow> jsval \<Rightarrow> form_state \<Rightarrow> form_state" where
  "onChange env fieldId v s =
     (let s1 = (if fieldId \<in> errors s \<and> \<not> is_nullish v \<and> \<not> loose_eq_empty v
                then s\<lparr>errors := errors s - {fieldId}\<rparr> else s)
      in
        if is_nullish v then
          s1\<lparr>formData := (formData s)(fieldId := None),
              pending := pending s @
                [DeferredWrite
                  ((formDataMap s)(localKey env \<mapsto> omit_draft env fieldId (formData s)))]\<rparr>
        else
          s1\<lparr>formData := (formData s)(fieldId \<mapsto> v),
              pending := pending s @
                [DeferredWrite ((formDataMap s)(localKey env \<mapsto> (formData s)(fieldId \<mapsto> v)))]\<rparr>)"

text \<open>
  \<open>onReset\<close>, given the \<open>formDataMap\<close> its closure captured (\<open>formDataMap s\<close> when it is
  called from the render on screen). \<open>resetFormData\<close> is the \<open>reset\<close> of \<open>useMap\<close>, which
  puts back the map the hook was mounted with; \<open>setFormDataMap\<close> keeps what JSON keeps of
  \<open>omit(formDataMap, [localKey])\<close>.
\<close>

definition onReset :: "view_env \<Rightarrow> store \<Rightarrow> form_state \<Rightarrow> form_state" where
  "onReset env captured s =
     s\<lparr>loading := False, formData := initialMap s,
        formDataMap := json_store (omit_store env (localKey env) captured)\<rparr>"

text \<open>
  \<open>onSubmit\<close> up to its \<open>await\<close> (or to its end, when no \<open>submit\<close> was given). When
  \<open>onVerify\<close> throws, the promise of \<open>onSubmit\<close> is rejected and nothing else is done.
\<close>

definition onSubmit :: "view_env \<Rightarrow> form_state \<Rightarrow> form_state" where
  "onSubmit env s =
     (case onVerify env s of
        (s1, Inl e) \<Rightarrow> s1
      | (s1, Inr False) \<Rightarrow> s1
      | (s1, Inr True) \<Rightarrow>
          (case submit env of
             None \<Rightarrow>
               s1\<lparr>loading := True, pending := pending s1 @ [DelayedReset (formDataMap s)]\<rparr>
           | Some call \<Rightarrow>
               s1\<lparr>loading := True,
                   effects := effects s1 @ [SubmitCall (formData s)],
                   pending := pending s1 @
                     [AfterSubmit (call (formData s)) (formDataMap s)]\<rparr>))"

text \<open>
  Running a continuation. The deferred write is \<open>setFormDataMap(m)\<close>, which keeps what
  JSON keeps of \<open>m\<close>; a rejected \<open>await\<close> ends \<open>onSubmit\<close> where it stands.
\<close>

fun run_task :: "view_env \<Rightarrow> task \<Rightarrow> form_state \<Rightarrow> form_state" where
  "run_task env (DeferredWrite m) s = s\<lparr>formDataMap := json_store m\<rparr>"
| "run_task env (AfterSubmit Fulfilled m) s = s\<lparr>pending := pending s @ [DelayedReset m]\<rparr>"
| "run_task env (AfterSubmit Rejected m) s = s"
| "run_task env (DelayedReset m) s =
     (let s1 = onReset env m s in s1\<lparr>effects := effects s1 @ [ScrollToTop, Toast]\<rparr>)"

text \<open>The scheduler runs the pending continuation at position \<open>i\<close>, if there is one.\<close>

definition fire :: "view_env \<Rightarrow> nat \<Rightarrow> form_state \<Rightarrow> form_state" where
  "fire env i s =
     (if i < length (pending s)
      then run_task env (pending s ! i)
             (s\<lparr>pending := take i (pending s) @ drop (Suc i) (pending s)\<rparr>)
      else s)"

text \<open>What can happen to a mounted form, one event at a time.\<close>

datatype event = Change string jsval | Submit | Reset | Fire nat

fun step :: "view_env \<Rightarrow> form_state \<Rightarrow> event \<Rightarrow> form_state" where
  "step env s (Change fieldId v) = onChange env fieldId v s"
| "step env s Submit = onSubmit env s"
| "step env s Reset = onReset env (formDataMap s) s"
| "step env s (Fire i) = fire env i s"

definition run :: "view_env \<Rightarrow> event list \<Rightarrow> form_state \<Rightarrow> form_state" where
  "run env evs s = foldl (step env) s evs"

subsection \<open>Notions the properties are stated with\<close>

text \<open>A field is required when the view's column meta has an entry for it that says so.\<close>

definition is_required :: "view_env \<Rightarrow> field_descriptor \<Rightarrow> bool" where
  "is_required env f = (case columnMeta env (field_id f) of None \<Rightarrow> False | Some c \<Rightarrow> required c)"

text \<open>A draft has a non-null entry for a field.\<close>

definition has_value :: "draft \<Rightarrow> string \<Rightarrow> bool" where
  "has_value d fieldId = (case d fieldId of None \<Rightarrow> False | Some v \<Rightarrow> \<not> is_nullish v)"

text \<open>Every visible field has an entry of its own in the view's column meta.\<close>

definition meta_complete :: "view_env \<Rightarrow> bool" where
  "meta_complete env = (\<forall>f \<in> set (visibleFields env). columnMeta env (field_id f) \<noteq> None)"

text \<open>No visible field has the empty string or the name of an inherited member as its id.\<close>

definition ids_plain :: "view_env \<Rightarrow> bool" where
  "ids_plain env =
     (\<forall>f \<in> set (visibleFields env). field_id f \<noteq> [] \<and> \<not> inherited (field_id f))"

subsection \<open>Example views and states\<close>

text \<open>
  The view of the spec's scenarios: field \<open>a\<close> is required, field \<open>b\<close> is not, and the
  collaborator's promise is fulfilled.
\<close>

definition field_a :: field_descriptor where
  "field_a = \<lparr> field_id = ''a'', isComputed = False, isLookup = False \<rparr>"

definition field_b :: field_descriptor where
  "field_b = \<lparr> field_id = ''b'', isComputed = False, isLookup = False \<rparr>"

definition env_ab :: view_env where
  "env_ab = \<lparr> localKey = ''tbl1_viw1'', fields' = [field_a, field_b],
      columnMeta = [''a'' \<mapsto> \<lparr> required = True \<rparr>, ''b'' \<mapsto> \<lparr> required = False \<rparr>],
      submit = Some (\<lambda>d. Fulfilled),
      omit_path_draft = (\<lambda>k d. d), omit_path_store = (\<lambda>k m. m) \<rparr>"

text \<open>The same view mounted without a \<open>submit\<close> prop.\<close>

definition env_nosubmit :: view_env where
  "env_nosubmit = env_ab\<lparr>submit := None\<rparr>"

text \<open>A view whose first field has the empty string as its id; both fields are required.\<close>

definition field_blank :: field_descriptor where
  "field_blank = \<lparr> field_id = [], isComputed = False, isLookup = False \<rparr>"

definition env_blank :: view_env where
  "env_blank = \<lparr> localKey = ''tbl1_viw1'', fields' = [field_blank, field_b],
      columnMeta = [[] \<mapsto> \<lparr> required = True \<rparr>, ''b'' \<mapsto> \<lparr> required = True \<rparr>],
      submit = Some (\<lambda>d. Fulfilled),
      omit_path_draft = (\<lambda>k d. d), omit_path_store = (\<lambda>k m. m) \<rparr>"

text \<open>A view whose required field is called \<open>constructor\<close>.\<close>

definition field_constructor :: field_descriptor where
  "field_constructor = \<lparr> field_id = ''constructor'', isComputed = False, isLookup = False \<rparr>"

definition env_constructor :: view_env where
  "env_constructor = \<lparr> localKey = ''tbl1_viw1'', fields' = [field_constructor],
      columnMeta = [''constructor'' \<mapsto> \<lparr> required = True \<rparr>],
      submit = Some (\<lambda>d. Fulfilled),
      omit_path_draft = (\<lambda>k d. d), omit_path_store = (\<lambda>k m. m) \<rparr>"

text \<open>
  A form whose storage key is \<open>tbl2_viw2.a\<close>, with one field that is not required, and a
  persisted mapping that holds the draft of another form under the key \<open>tbl2_viw2\<close>.
\<close>

definition env_dotted :: view_env where
  "env_dotted = \<lparr> localKey = ''tbl2_viw2.a'', fields' = [field_b],
      columnMeta = [''b'' \<mapsto> \<lparr> required = False \<rparr>],
      submit = Some (\<lambda>d. Fulfilled),
      omit_path_draft = (\<lambda>k d. d), omit_path_store = (\<lambda>k m. m) \<rparr>"

definition stored_other :: store where
  "stored_other = [''tbl2_viw2'' \<mapsto> [''a'' \<mapsto> JStr ''z'']]"

definition state_dotted :: form_state where
  "state_dotted =
     \<lparr> formDataMap = stored_other, formData = Map.empty, initialMap = Map.empty,
       errors = {}, loading = False, pending = [], effects = [] \<rparr>"

text \<open>A form mounted on an empty persisted mapping.\<close>

definition state_fresh :: form_state where
  "state_fresh =
     \<lparr> formDataMap = Map.empty, formData = Map.empty, initialMap = Map.empty,
       errors = {}, loading = False, pending = [], effects = [] \<rparr>"

text \<open>The form of the spec's scenario after a failed verification: field \<open>a\<close> is marked.\<close>

definition state_marked :: form_state where
  "state_marked = fst (onVerify env_ab state_fresh)"

text \<open>A fresh form into whose field \<open>b\<close> the user has typed \<open>y\<close>.\<close>

definition state_b_filled :: form_state where
  "state_b_filled = onChange env_blank ''b'' (JStr ''y'') state_fresh"

text \<open>
  The form after the user typed \<open>x\<close> into field \<open>a\<close>, the deferred write ran, and the page
  was loaded again: the component mounted on the persisted mapping the first session left.
\<close>

definition state_reloaded :: form_state where
  "state_reloaded =
     \<lparr> formDataMap = [''tbl1_viw1'' \<mapsto> [''a'' \<mapsto> JStr ''x'']],
       formData = [''a'' \<mapsto> JStr ''x''], initialMap = [''a'' \<mapsto> JStr ''x''],
       errors = {}, loading = False, pending = [], effects = [] \<rparr>"

section \<open>What JSON keeps of a draft\<close>

lemma json_draft_empty: "json_draft Map.empty = Map.empty"
  by (simp add: json_draft_def)

lemma json_draft_update:
  "json_draft (d(k \<mapsto> v)) =
     (if json_omits v then (json_draft d)(k := None) else (json_draft d)(k \<mapsto> json_value v))"
  by (auto simp: json_draft_def fun_eq_iff)

lemma json_draft_delete: "json_draft (d(k := None)) = (json_draft d)(k := None)"
  by (auto simp: json_draft_def fun_eq_iff)

lemma json_store_empty: "json_store Map.empty = Map.empty"
  by (simp add: json_store_def)

lemma json_store_update: "json_store (m(k \<mapsto> d)) = (json_store m)(k \<mapsto> json_draft d)"
  by (auto simp: json_store_def fun_eq_iff)

lemma json_store_delete: "json_store (m(k := None)) = (json_store m)(k := None)"
  by (auto simp: json_store_def fun_eq_iff)

lemmas json_kept =
  json_draft_empty json_draft_update json_draft_delete
  json_store_empty json_store_update json_store_delete

section \<open>The example states\<close>

lemma mount_fresh: "mount env_ab Map.empty = Some state_fresh"
  by (simp add: mount_def state_fresh_def env_ab_def inherited_def inherited_members_def)

lemma mount_reloaded:
  "mount env_ab (formDataMap (run env_ab [Change ''a'' (JStr ''x''), Fire 0] state_fresh)) =
     Some state_reloaded"
  by (simp add: run_def onChange_def fire_def mount_def state_fresh_def state_reloaded_def
        env_ab_def json_kept Let_def)

lemma mount_dotted: "mount env_dotted stored_other = Some state_dotted"
  by (simp add: mount_def state_dotted_def stored_other_def env_dotted_def inherited_def
        inherited_members_def)

lemma state_marked_eq:
  "state_marked =
     \<lparr> formDataMap = Map.empty, formData = Map.empty, initialMap = Map.empty,
       errors = {''a''}, loading = False, pending = [], effects = [ScrollIntoView ''a''] \<rparr>"
  by (simp add: state_marked_def state_fresh_def onVerify_def visibleFields_def env_ab_def
        field_a_def field_b_def prop_of_def inherited_def inherited_members_def Let_def)

lemma state_b_filled_eq:
  "state_b_filled =
     \<lparr> formDataMap = Map.empty, formData = [''b'' \<mapsto> JStr ''y''], initialMap = Map.empty,
       errors = {}, loading = False,
       pending = [DeferredWrite [''tbl1_viw1'' \<mapsto> [''b'' \<mapsto> JStr ''y'']]], effects = [] \<rparr>"
  by (simp add: state_b_filled_def state_fresh_def onChange_def env_blank_def Let_def)

section \<open>Validation\<close>

subsection \<open>The two loops of \<open>onVerify\<close>\<close>

lemma requiredFieldIds_Inr:
  "\<forall>f \<in> set fs. cm (field_id f) \<noteq> None \<Longrightarrow>
   requiredFieldIds cm fs acc =
     Inr (acc @ map field_id
            (filter (\<lambda>f. case cm (field_id f) of None \<Rightarrow> False | Some c \<Rightarrow> required c) fs))"
  by (induction fs arbitrary: acc) auto

lemma requiredFieldIds_complete:
  "requiredFieldIds cm fs acc = Inr ids \<Longrightarrow> f \<in> set fs \<Longrightarrow>
   cm (field_id f) \<noteq> None \<or> inherited (field_id f)"
  by (induction fs arbitrary: acc) (auto split: option.splits if_splits)

lemma mark_missing_snd:
  "snd (mark_missing d ids (first, errs)) = errs \<union> {i \<in> set ids. is_nullish (prop_of d i)}"
  by (induction ids arbitrary: first errs) auto

lemma mark_missing_fst:
  "[] \<notin> set ids \<Longrightarrow>
   fst (mark_missing d ids (first, errs)) =
     (if first \<noteq> [] then first
      else (case filter (\<lambda>i. is_nullish (prop_of d i)) ids of [] \<Rightarrow> [] | i # rest \<Rightarrow> i))"
  by (induction ids arbitrary: first errs) auto

lemma onVerify_ignores_errors: "onVerify env (s\<lparr>errors := E\<rparr>) = onVerify env s"
  by (simp add: onVerify_def Let_def split: sum.splits prod.splits)

lemma onVerify_shape:
  assumes "meta_complete env"
  shows "onVerify env s =
    (let ids = map field_id (filter (is_required env) (visibleFields env));
         r = mark_missing (formData s) ids ([], {})
     in if fst r = []
        then (s\<lparr>errors := {i \<in> set ids. is_nullish (prop_of (formData s) i)}\<rparr>, Inr True)
        else (s\<lparr>errors := {i \<in> set ids. is_nullish (prop_of (formData s) i)},
                effects := effects s @ [ScrollIntoView (fst r)]\<rparr>, Inr False))"
proof -
  define ids where "ids = map field_id (filter (is_required env) (visibleFields env))"
  define r where "r = mark_missing (formData s) ids ([], {})"
  have req: "requiredFieldIds (columnMeta env) (visibleFields env) [] = Inr ids"
    using assms requiredFieldIds_Inr [of "visibleFields env" "columnMeta env" "[]"]
    by (simp add: meta_complete_def is_required_def [abs_def] ids_def)
  have r_snd: "snd r = {i \<in> set ids. is_nullish (prop_of (formData s) i)}"
    by (simp add: r_def mark_missing_snd)
  obtain first errs where r_eq: "r = (first, errs)"
    by (cases r)
  have errs: "errs = {i \<in> set ids. is_nullish (prop_of (formData s) i)}"
    using r_snd r_eq by simp
  have lhs: "onVerify env s =
      (if ids = [] then (s\<lparr>errors := {}\<rparr>, Inr True)
       else if first = [] then (s\<lparr>errors := errs\<rparr>, Inr True)
       else (s\<lparr>errors := errs, effects := effects s @ [ScrollIntoView first]\<rparr>, Inr False))"
    using r_eq by (simp add: onVerify_def req r_def Let_def)
  have nil: "ids = [] \<Longrightarrow> first = [] \<and> errs = {}"
    using r_eq by (simp add: r_def)
  show ?thesis
    unfolding lhs Let_def ids_def [symmetric] r_def [symmetric]
    using nil by (auto simp: r_eq errs)
qed

lemma first_of_marks:
  assumes "[] \<notin> set ids"
  shows "fst (mark_missing d ids ([], {})) = [] \<longleftrightarrow> (\<forall>i \<in> set ids. \<not> is_nullish (prop_of d i))"
proof (cases "filter (\<lambda>i. is_nullish (prop_of d i)) ids")
  case Nil
  then show ?thesis
    using assms by (simp add: mark_missing_fst filter_empty_conv)
next
  case (Cons i rest)
  then have "i \<in> set (filter (\<lambda>i. is_nullish (prop_of d i)) ids)"
    by simp
  then have "i \<in> set ids" and "is_nullish (prop_of d i)"
    by simp_all
  moreover from this assms have "i \<noteq> []"
    by auto
  ultimately show ?thesis
    using assms Cons by (auto simp: mark_missing_fst)
qed

lemma find_first_missing:
  "filter P (map field_id (filter Q fs)) = i # rest \<Longrightarrow>
   \<exists>f. List.find (\<lambda>f. Q f \<and> P (field_id f)) fs = Some f \<and> field_id f = i"
  by (induction fs) (auto split: if_splits)

text \<open>Under a name that no object inherits, a read is null exactly without a non-null entry.\<close>

lemma read_plain: "\<not> inherited k \<Longrightarrow> is_nullish (prop_of d k) \<longleftrightarrow> \<not> has_value d k"
  by (simp add: prop_of_def has_value_def split: option.splits)

lemma read_inherited: "inherited k \<Longrightarrow> d k = None \<Longrightarrow> \<not> is_nullish (prop_of d k)"
  by (simp add: prop_of_def)

subsection \<open>Views with plain field ids\<close>

text \<open>
  When every visible field has a column-meta entry of its own and an id that is neither
  empty nor the name of an inherited member, \<open>onVerify\<close> succeeds exactly if every required
  field has a non-null entry in the draft, and it leaves marked exactly the required fields
  without one, whatever was marked before.
\<close>

lemma verify_on_plain_ids:
  assumes "meta_complete env" and "ids_plain env"
  shows "snd (onVerify env s) =
           Inr (\<forall>f \<in> set (visibleFields env).
                  is_required env f \<longrightarrow> has_value (formData s) (field_id f))"
    and "errors (fst (onVerify env s)) =
           set (map field_id (filter (\<lambda>f. is_required env f \<and> \<not> has_value (formData s) (field_id f))
                                (visibleFields env)))"
proof -
  define ids where "ids = map field_id (filter (is_required env) (visibleFields env))"
  have nonempty: "[] \<notin> set ids"
    using assms(2) by (auto simp: ids_def ids_plain_def)
  have plain: "is_nullish (prop_of (formData s) (field_id f)) \<longleftrightarrow> \<not> has_value (formData s) (field_id f)"
    if "f \<in> set (visibleFields env)" for f
    using assms(2) that by (simp add: ids_plain_def read_plain)
  have first: "fst (mark_missing (formData s) ids ([], {})) = [] \<longleftrightarrow>
      (\<forall>f \<in> set (visibleFields env). is_required env f \<longrightarrow> has_value (formData s) (field_id f))"
    unfolding first_of_marks [OF nonempty] using plain by (auto simp: ids_def)
  have marks: "{i \<in> set ids. is_nullish (prop_of (formData s) i)} =
      set (map field_id (filter (\<lambda>f. is_required env f \<and> \<not> has_value (formData s) (field_id f))
                           (visibleFields env)))"
    using plain by (auto simp: ids_def)
  show "snd (onVerify env s) =
      Inr (\<forall>f \<in> set (visibleFields env). is_required env f \<longrightarrow> has_value (formData s) (field_id f))"
    using first by (simp add: onVerify_shape [OF assms(1)] Let_def ids_def [symmetric])
  show "errors (fst (onVerify env s)) =
      set (map field_id (filter (\<lambda>f. is_required env f \<and> \<not> has_value (formData s) (field_id f))
                           (visibleFields env)))"
    using marks by (simp add: onVerify_shape [OF assms(1)] Let_def ids_def [symmetric])
qed

text \<open>
  On such a view, when \<open>onVerify\<close> fails, the field scrolled into view is the first visible
  field that is required and has no non-null entry in the draft.
\<close>

lemma focus_on_plain_ids:
  assumes "meta_complete env" and "ids_plain env" and "snd (onVerify env s) = Inr False"
  shows "\<exists>f. List.find (\<lambda>f. is_required env f \<and> \<not> has_value (formData s) (field_id f))
                (visibleFields env) = Some f
           \<and> effects (fst (onVerify env s)) = effects s @ [ScrollIntoView (field_id f)]"
proof -
  define ids where "ids = map field_id (filter (is_required env) (visibleFields env))"
  define first where "first = fst (mark_missing (formData s) ids ([], {}))"
  have nonempty: "[] \<notin> set ids"
    using assms(2) by (auto simp: ids_def ids_plain_def)
  have failed: "first \<noteq> []"
    using assms(3)
    by (auto simp: onVerify_shape [OF assms(1)] Let_def ids_def first_def split: if_splits)
  then have scroll: "effects (fst (onVerify env s)) = effects s @ [ScrollIntoView first]"
    by (simp add: onVerify_shape [OF assms(1)] Let_def ids_def first_def)
  have "first = (case filter (\<lambda>i. is_nullish (prop_of (formData s) i)) ids of
                   [] \<Rightarrow> [] | i # rest \<Rightarrow> i)"
    using nonempty by (simp add: first_def mark_missing_fst)
  with failed obtain rest where
    "filter (\<lambda>i. is_nullish (prop_of (formData s) i)) ids = first # rest"
    by (auto split: list.splits)
  then obtain f where found:
    "List.find (\<lambda>f. is_required env f \<and> is_nullish (prop_of (formData s) (field_id f)))
       (visibleFields env) = Some f" and target: "field_id f = first"
    unfolding ids_def using find_first_missing by blast
  have "List.find (\<lambda>f. is_required env f \<and> is_nullish (prop_of (formData s) (field_id f)))
       (visibleFields env) =
      List.find (\<lambda>f. is_required env f \<and> \<not> has_value (formData s) (field_id f))
       (visibleFields env)"
    using assms(2) by (intro find_cong) (auto simp: ids_plain_def read_plain)
  with found target scroll show ?thesis
    by auto
qed

subsection \<open>Success with a field marked\<close>

text \<open>
  Claim C1, at a view whose first required field has the empty string as its id. The user
  has filled the other required field only. \<open>onVerify\<close> marks the field with the empty id,
  which is required and has no entry in the draft, and yet returns success: the id it
  recorded as the first failing one is the empty string, which \<open>!firstErrorFieldId\<close> takes
  for no id at all.
\<close>

theorem verify_succeeds_with_field_marked:
  "field_blank \<in> set (visibleFields env_blank)
   \<and> is_required env_blank field_blank
   \<and> formData state_b_filled (field_id field_blank) = None
   \<and> \<not> has_value (formData state_b_filled) (field_id field_blank)
   \<and> errors (fst (onVerify env_blank state_b_filled)) = {field_id field_blank}
   \<and> snd (onVerify env_blank state_b_filled) = Inr True"
  by (simp add: state_b_filled_eq onVerify_def is_required_def has_value_def visibleFields_def
        env_blank_def field_blank_def field_b_def prop_of_def inherited_def
        inherited_members_def Let_def)

text \<open>
  A required field called \<open>constructor\<close> is taken to be filled in on an empty draft, since
  \<open>formData[fieldId]\<close> finds the member every object inherits.
\<close>

lemma verify_reads_inherited_member:
  "is_required env_constructor field_constructor
   \<and> formData state_fresh (field_id field_constructor) = None
   \<and> onVerify env_constructor state_fresh = (state_fresh, Inr True)"
  by (simp add: state_fresh_def onVerify_def is_required_def visibleFields_def
        env_constructor_def field_constructor_def prop_of_def inherited_def
        inherited_members_def Let_def)

subsection \<open>The focus target\<close>

text \<open>
  Claim C2, at a view whose first required field has the empty string as its id, on an
  empty draft. \<open>onVerify\<close> fails, and the first visible field that is required and has no
  entry in the draft is the one with the empty id; but the field scrolled into view is the
  second, \<open>b\<close>, because the empty id is overwritten as if none had been recorded.
\<close>

theorem focus_skips_first_failing_field:
  "snd (onVerify env_blank state_fresh) = Inr False
   \<and> List.find (\<lambda>f. is_required env_blank f \<and> \<not> has_value (formData state_fresh) (field_id f))
        (visibleFields env_blank) = Some field_blank
   \<and> effects (fst (onVerify env_blank state_fresh)) = [ScrollIntoView ''b'']
   \<and> field_id field_blank \<noteq> ''b''"
  by (simp add: state_fresh_def onVerify_def is_required_def has_value_def visibleFields_def
        env_blank_def field_blank_def field_b_def prop_of_def inherited_def
        inherited_members_def Let_def)

section \<open>Submission\<close>

subsection \<open>What \<open>onVerify\<close> leaves alone\<close>

lemma onVerify_frame:
  "formData (fst (onVerify env s)) = formData s
   \<and> formDataMap (fst (onVerify env s)) = formDataMap s
   \<and> initialMap (fst (onVerify env s)) = initialMap s
   \<and> loading (fst (onVerify env s)) = loading s
   \<and> pending (fst (onVerify env s)) = pending s"
  by (simp add: onVerify_def Let_def split: sum.splits prod.splits)

lemma onVerify_effects:
  "filter is_submit_call (effects (fst (onVerify env s))) = filter is_submit_call (effects s)"
  by (simp add: onVerify_def Let_def split: sum.splits prod.splits)

lemma onVerify_True_effects:
  "snd (onVerify env s) = Inr True \<Longrightarrow> effects (fst (onVerify env s)) = effects s"
  by (auto simp: onVerify_def Let_def split: sum.splits prod.splits if_splits)

lemma onVerify_marks_missing:
  "i \<in> errors (fst (onVerify env s)) \<Longrightarrow> is_nullish (prop_of (formData s) i)"
proof (cases "requiredFieldIds (columnMeta env) (visibleFields env) []")
  case (Inl e)
  then show "i \<in> errors (fst (onVerify env s)) \<Longrightarrow> ?thesis"
    by (simp add: onVerify_def Let_def)
next
  case (Inr ids)
  have "snd (mark_missing (formData s) ids ([], {})) =
      {i \<in> set ids. is_nullish (prop_of (formData s) i)}"
    by (simp add: mark_missing_snd)
  then show "i \<in> errors (fst (onVerify env s)) \<Longrightarrow> ?thesis"
    using Inr by (auto simp: onVerify_def Let_def split: prod.splits if_splits)
qed

lemma onSubmit_rejected:
  assumes "snd (onVerify env s) \<noteq> Inr True"
  shows "onSubmit env s = fst (onVerify env s)"
proof (cases "onVerify env s")
  case (Pair s1 r)
  with assms show ?thesis
    by (cases r) (auto simp: onSubmit_def)
qed

lemma onSubmit_accepted:
  assumes "snd (onVerify env s) = Inr True"
  shows "onSubmit env s =
    (case submit env of
       None \<Rightarrow>
         (fst (onVerify env s))\<lparr>loading := True,
           pending := pending s @ [DelayedReset (formDataMap s)]\<rparr>
     | Some call \<Rightarrow>
         (fst (onVerify env s))\<lparr>loading := True,
           effects := effects s @ [SubmitCall (formData s)],
           pending := pending s @ [AfterSubmit (call (formData s)) (formDataMap s)]\<rparr>)"
proof (cases "onVerify env s")
  case (Pair s1 r)
  with assms have r: "r = Inr True"
    by simp
  have "pending s1 = pending s" and "effects s1 = effects s"
    using onVerify_frame [of env s] onVerify_True_effects [OF assms] Pair by simp_all
  then show ?thesis
    using Pair r by (simp add: onSubmit_def split: option.splits)
qed

text \<open>Running the continuation a handler has just put at the end of the pending list.\<close>

lemma fire_last:
  "pending s = ts @ [t] \<Longrightarrow> fire env (length ts) s = run_task env t (s\<lparr>pending := ts\<rparr>)"
  by (simp add: fire_def)

subsection \<open>A failed verification aborts the submission\<close>

text \<open>
  Claim C4. For every state in which \<open>onVerify\<close> does not return success when submit is
  triggered (it returns failure, or throws), \<open>onSubmit\<close> stops there: the state is the one
  \<open>onVerify\<close> left, the submit collaborator is not called, the busy flag is what it was
  (false stays false), the draft and the persisted mapping are unchanged, and no
  continuation is scheduled, so nothing is reset later.
\<close>

theorem onSubmit_aborts:
  assumes "snd (onVerify env s) \<noteq> Inr True"
  shows "onSubmit env s = fst (onVerify env s)
       \<and> filter is_submit_call (effects (onSubmit env s)) = filter is_submit_call (effects s)
       \<and> loading (onSubmit env s) = loading s
       \<and> formData (onSubmit env s) = formData s
       \<and> formDataMap (onSubmit env s) = formDataMap s
       \<and> initialMap (onSubmit env s) = initialMap s
       \<and> pending (onSubmit env s) = pending s"
  using onSubmit_rejected [OF assms] onVerify_frame [of env s] onVerify_effects [of env s]
  by simp

theorem onSubmit_aborts_witness:
  "snd (onVerify env_ab state_fresh) \<noteq> Inr True
   \<and> effects (onSubmit env_ab state_fresh) = [ScrollIntoView ''a'']
   \<and> loading (onSubmit env_ab state_fresh) = False
   \<and> formData (onSubmit env_ab state_fresh) = Map.empty
   \<and> formDataMap (onSubmit env_ab state_fresh) = Map.empty
   \<and> pending (onSubmit env_ab state_fresh) = []"
proof -
  have failed: "onVerify env_ab state_fresh = (state_marked, Inr False)"
    by (simp add: state_marked_eq)
      (simp add: state_fresh_def onVerify_def visibleFields_def env_ab_def field_a_def
        field_b_def prop_of_def inherited_def inherited_members_def Let_def)
  then have rejected: "snd (onVerify env_ab state_fresh) \<noteq> Inr True"
    by simp
  from onSubmit_aborts [OF rejected] rejected failed show ?thesis
    by (simp add: state_marked_eq state_fresh_def)
qed

subsection \<open>An accepted submission\<close>

text \<open>
  What a submission does once \<open>onVerify\<close> succeeds and the collaborator's promise is
  fulfilled: the busy flag is set and the collaborator is called once with the draft; when
  the promise has settled the delayed reset is scheduled; when that has run, the form's
  entry is gone from the persisted mapping, the busy flag is off, the container was
  scrolled to its top and the notification shown. The draft in memory is then the map
  the \<open>useMap\<close> hook was mounted with, which is empty only if no draft had been persisted
  when the component mounted; the persisted mapping is what JSON keeps of \<open>omit\<close> of the
  captured one.
\<close>

lemma submit_cycle:
  assumes "snd (onVerify env s) = Inr True"
    and "submit env = Some call" and "call (formData s) = Fulfilled"
  defines "n \<equiv> length (pending s)"
  defines "s1 \<equiv> onSubmit env s"
  defines "s3 \<equiv> fire env n (fire env n s1)"
  shows "loading s1" and "effects s1 = effects s @ [SubmitCall (formData s)]"
    and "formData s1 = formData s" and "formDataMap s1 = formDataMap s"
    and "pending (fire env n s1) = pending s @ [DelayedReset (formDataMap s)]"
    and "formData s3 = initialMap s"
    and "formDataMap s3 = json_store (omit_store env (localKey env) (formDataMap s))"
    and "\<not> loading s3"
    and "effects s3 = effects s @ [SubmitCall (formData s), ScrollToTop, Toast]"
    and "pending s3 = pending s"
proof -
  have s1: "s1 = (fst (onVerify env s))\<lparr>loading := True,
      effects := effects s @ [SubmitCall (formData s)],
      pending := pending s @ [AfterSubmit Fulfilled (formDataMap s)]\<rparr>"
    using onSubmit_accepted [OF assms(1)] assms(2,3) by (simp add: s1_def)
  have s2: "fire env n s1 = s1\<lparr>pending := pending s @ [DelayedReset (formDataMap s)]\<rparr>"
    unfolding n_def by (subst fire_last [where t = "AfterSubmit Fulfilled (formDataMap s)"])
      (simp_all add: s1)
  have s3: "s3 = run_task env (DelayedReset (formDataMap s)) (s1\<lparr>pending := pending s\<rparr>)"
  proof -
    have "pending (fire env n s1) = pending s @ [DelayedReset (formDataMap s)]"
      by (simp add: s2)
    then have "fire env n (fire env n s1) =
        run_task env (DelayedReset (formDataMap s)) ((fire env n s1)\<lparr>pending := pending s\<rparr>)"
      unfolding n_def by (rule fire_last)
    then show ?thesis
      by (simp add: s3_def s2)
  qed
  show "loading s1" and "effects s1 = effects s @ [SubmitCall (formData s)]"
    and "formData s1 = formData s" and "formDataMap s1 = formDataMap s"
    using onVerify_frame [of env s] by (simp_all add: s1)
  show "pending (fire env n s1) = pending s @ [DelayedReset (formDataMap s)]"
    by (simp add: s2)
  show "formData s3 = initialMap s"
    and "formDataMap s3 = json_store (omit_store env (localKey env) (formDataMap s))"
    and "\<not> loading s3" and "effects s3 = effects s @ [SubmitCall (formData s), ScrollToTop, Toast]"
    and "pending s3 = pending s"
    using onVerify_frame [of env s] by (simp_all add: s3 s1 onReset_def Let_def)
qed

text \<open>Without a \<open>submit\<close> prop the reset is scheduled at once and nothing is called.\<close>

lemma submit_cycle_without_collaborator:
  assumes "snd (onVerify env s) = Inr True" and "submit env = None"
  defines "s1 \<equiv> onSubmit env s"
  defines "s2 \<equiv> fire env (length (pending s)) s1"
  shows "loading s1" and "effects s1 = effects s"
    and "formData s2 = initialMap s"
    and "formDataMap s2 = json_store (omit_store env (localKey env) (formDataMap s))"
    and "\<not> loading s2"
    and "effects s2 = effects s @ [ScrollToTop, Toast]"
    and "pending s2 = pending s"
proof -
  have s1: "s1 = (fst (onVerify env s))\<lparr>loading := True,
      pending := pending s @ [DelayedReset (formDataMap s)]\<rparr>"
    using onSubmit_accepted [OF assms(1)] assms(2) by (simp add: s1_def)
  have s2: "s2 = run_task env (DelayedReset (formDataMap s)) (s1\<lparr>pending := pending s\<rparr>)"
    unfolding s2_def
    by (subst fire_last [where t = "DelayedReset (formDataMap s)"]) (simp_all add: s1)
  show "loading s1" and "effects s1 = effects s"
    using onVerify_True_effects [OF assms(1)] by (simp_all add: s1)
  show "formData s2 = initialMap s"
    and "formDataMap s2 = json_store (omit_store env (localKey env) (formDataMap s))"
    and "\<not> loading s2" and "effects s2 = effects s @ [ScrollToTop, Toast]"
    and "pending s2 = pending s"
    using onVerify_frame [of env s] onVerify_True_effects [OF assms(1)]
    by (simp_all add: s2 s1 onReset_def Let_def)
qed

text \<open>
  When the collaborator's promise is rejected, \<open>onSubmit\<close> ends at its \<open>await\<close>: no reset
  is scheduled and the busy flag stays set.
\<close>

lemma submit_rejected_stays_busy:
  assumes "snd (onVerify env s) = Inr True"
    and "submit env = Some call" and "call (formData s) = Rejected"
  shows "fire env (length (pending s)) (onSubmit env s) = (onSubmit env s)\<lparr>pending := pending s\<rparr>"
    and "loading (fire env (length (pending s)) (onSubmit env s))"
proof -
  have s1: "onSubmit env s = (fst (onVerify env s))\<lparr>loading := True,
      effects := effects s @ [SubmitCall (formData s)],
      pending := pending s @ [AfterSubmit Rejected (formDataMap s)]\<rparr>"
    using onSubmit_accepted [OF assms(1)] assms(2,3) by simp
  show "fire env (length (pending s)) (onSubmit env s) = (onSubmit env s)\<lparr>pending := pending s\<rparr>"
    by (subst fire_last [where t = "AfterSubmit Rejected (formDataMap s)"]) (simp_all add: s1)
  then show "loading (fire env (length (pending s)) (onSubmit env s))"
    by (simp add: s1)
qed

lemma omit_store_plain:
  "CHR ''.'' \<notin> set k \<Longrightarrow> CHR ''['' \<notin> set k \<Longrightarrow> omit_store env k m = m(k := None)"
  by (simp add: omit_store_def single_key_def)

lemma omit_draft_plain:
  "CHR ''.'' \<notin> set k \<Longrightarrow> CHR ''['' \<notin> set k \<Longrightarrow> omit_draft env k d = d(k := None)"
  by (simp add: omit_draft_def single_key_def)

lemma env_ab_accepts_reloaded:
  "onVerify env_ab state_reloaded = (state_reloaded, Inr True)"
  by (simp add: state_reloaded_def onVerify_def visibleFields_def env_ab_def field_a_def
        field_b_def prop_of_def Let_def)

lemma env_nosubmit_accepts_reloaded:
  "onVerify env_nosubmit state_reloaded = (state_reloaded, Inr True)"
  by (simp add: state_reloaded_def onVerify_def visibleFields_def env_nosubmit_def env_ab_def
        field_a_def field_b_def prop_of_def Let_def)

text \<open>
  Claim C3, at a form that was mounted on a persisted draft. Verification succeeds, the
  collaborator is called once with the draft, and after the promise has settled and the
  delay has passed the persisted entry is gone, the busy flag is off and the notification
  was shown; but the draft in memory is the persisted draft again, not the empty mapping.
\<close>

theorem submit_leaves_reloaded_draft:
  "snd (onVerify env_ab state_reloaded) = Inr True
   \<and> loading (onSubmit env_ab state_reloaded)
   \<and> effects (fire env_ab 0 (fire env_ab 0 (onSubmit env_ab state_reloaded))) =
       [SubmitCall [''a'' \<mapsto> JStr ''x''], ScrollToTop, Toast]
   \<and> formDataMap (fire env_ab 0 (fire env_ab 0 (onSubmit env_ab state_reloaded))) ''tbl1_viw1'' = None
   \<and> loading (fire env_ab 0 (fire env_ab 0 (onSubmit env_ab state_reloaded))) = False
   \<and> formData (fire env_ab 0 (fire env_ab 0 (onSubmit env_ab state_reloaded))) ''a'' =
       Some (JStr ''x'')"
proof -
  have "onSubmit env_ab state_reloaded =
      state_reloaded\<lparr>loading := True,
        effects := [SubmitCall [''a'' \<mapsto> JStr ''x'']],
        pending := [AfterSubmit Fulfilled [''tbl1_viw1'' \<mapsto> [''a'' \<mapsto> JStr ''x'']]]\<rparr>"
    by (simp add: onSubmit_def env_ab_accepts_reloaded) (simp add: env_ab_def state_reloaded_def)
  then show ?thesis
    by (simp add: env_ab_accepts_reloaded fire_def onReset_def Let_def)
      (simp add: state_reloaded_def env_ab_def omit_store_plain json_kept)
qed

text \<open>
  Claim C10, at a form that was mounted on a persisted draft and has no \<open>submit\<close> prop.
  The busy flag is set, nothing is called, and the delayed reset removes the persisted
  entry, turns the busy flag off and shows the notification; but the draft in memory is
  the persisted draft again, not the empty mapping.
\<close>

theorem submit_without_collaborator_leaves_reloaded_draft:
  "submit env_nosubmit = None
   \<and> snd (onVerify env_nosubmit state_reloaded) = Inr True
   \<and> loading (onSubmit env_nosubmit state_reloaded)
   \<and> effects (fire env_nosubmit 0 (onSubmit env_nosubmit state_reloaded)) = [ScrollToTop, Toast]
   \<and> formDataMap (fire env_nosubmit 0 (onSubmit env_nosubmit state_reloaded)) ''tbl1_viw1'' = None
   \<and> loading (fire env_nosubmit 0 (onSubmit env_nosubmit state_reloaded)) = False
   \<and> formData (fire env_nosubmit 0 (onSubmit env_nosubmit state_reloaded)) ''a'' =
       Some (JStr ''x'')"
proof -
  have "onSubmit env_nosubmit state_reloaded =
      state_reloaded\<lparr>loading := True,
        pending := [DelayedReset [''tbl1_viw1'' \<mapsto> [''a'' \<mapsto> JStr ''x'']]]\<rparr>"
    by (simp add: onSubmit_def env_nosubmit_accepts_reloaded)
      (simp add: env_nosubmit_def env_ab_def state_reloaded_def)
  then show ?thesis
    by (simp add: env_nosubmit_accepts_reloaded fire_def onReset_def Let_def)
      (simp add: state_reloaded_def env_nosubmit_def env_ab_def
        omit_store_plain json_kept)
qed

subsection \<open>Reset\<close>

lemma onReset_frame:
  "formData (onReset env m s) = initialMap s
   \<and> formDataMap (onReset env m s) = json_store (omit_store env (localKey env) m)
   \<and> loading (onReset env m s) = False
   \<and> effects (onReset env m s) = effects s
   \<and> pending (onReset env m s) = pending s
   \<and> errors (onReset env m s) = errors s"
  by (simp add: onReset_def)

text \<open>
  Claim C5, at a form that was mounted on a persisted draft. \<open>onReset\<close> removes the
  persisted entry, turns the busy flag off and calls nothing; but the draft in memory is
  the persisted draft, not the empty mapping.
\<close>

theorem reset_leaves_reloaded_draft:
  "formDataMap (step env_ab state_reloaded Reset) ''tbl1_viw1'' = None
   \<and> loading (step env_ab state_reloaded Reset) = False
   \<and> effects (step env_ab state_reloaded Reset) = []
   \<and> formData state_reloaded ''a'' = Some (JStr ''x'')
   \<and> formData (step env_ab state_reloaded Reset) ''a'' = Some (JStr ''x'')"
  by (simp add: onReset_def state_reloaded_def env_ab_def omit_store_def single_key_def
        json_kept)

section \<open>Edits\<close>

lemma onChange_errors:
  "errors (onChange env fieldId v s) =
     (if fieldId \<in> errors s \<and> \<not> is_nullish v \<and> \<not> loose_eq_empty v
      then errors s - {fieldId} else errors s)"
  by (simp add: onChange_def Let_def)

lemma onChange_formData:
  "formData (onChange env fieldId v s) =
     (if is_nullish v then (formData s)(fieldId := None) else (formData s)(fieldId \<mapsto> v))"
  by (simp add: onChange_def Let_def)

lemma onChange_pending:
  "pending (onChange env fieldId v s) =
     pending s @
       [DeferredWrite
         ((formDataMap s)(localKey env \<mapsto>
            (if is_nullish v then omit_draft env fieldId (formData s)
             else (formData s)(fieldId \<mapsto> v))))]"
  by (simp add: onChange_def Let_def)

lemma onChange_frame:
  "formDataMap (onChange env fieldId v s) = formDataMap s
   \<and> initialMap (onChange env fieldId v s) = initialMap s
   \<and> loading (onChange env fieldId v s) = loading s
   \<and> effects (onChange env fieldId v s) = effects s"
  by (simp add: onChange_def Let_def)

text \<open>
  The deferred write of an edit, once it runs, stores what JSON keeps of the captured
  mapping with the edited draft under the form's key.
\<close>

lemma onChange_write:
  "fire env (length (pending s)) (onChange env fieldId v s) =
     (onChange env fieldId v s)
       \<lparr>pending := pending s,
        formDataMap :=
          json_store
            ((formDataMap s)(localKey env \<mapsto>
               (if is_nullish v then omit_draft env fieldId (formData s)
                else (formData s)(fieldId \<mapsto> v))))\<rparr>"
proof -
  have "fire env (length (pending s)) (onChange env fieldId v s) =
      run_task env
        (DeferredWrite
          ((formDataMap s)(localKey env \<mapsto>
             (if is_nullish v then omit_draft env fieldId (formData s)
              else (formData s)(fieldId \<mapsto> v)))))
        ((onChange env fieldId v s)\<lparr>pending := pending s\<rparr>)"
    using onChange_pending by (rule fire_last)
  then show ?thesis
    by simp
qed

text \<open>An edit of a marked field to a non-empty string takes the mark away at once.\<close>

lemma onChange_string_clears_error:
  "fieldId \<in> errors s \<Longrightarrow> t \<noteq> [] \<Longrightarrow>
   errors (onChange env fieldId (JStr t) s) = errors s - {fieldId}"
  by (simp add: onChange_errors)

subsection \<open>An edit to zero\<close>

text \<open>
  Claim C7, at the form of the spec's scenario with field \<open>a\<close> marked. The number \<open>0\<close>
  and \<open>false\<close> are neither null nor empty, yet an edit that sets the marked field to one
  of them leaves it marked, because \<open>value != ''\<close> is a loose comparison and \<open>0 == ''\<close>
  holds. \<open>onVerify\<close> itself takes the field for filled in after the edit.
\<close>

theorem zero_edit_leaves_field_marked:
  "''a'' \<in> errors state_marked
   \<and> \<not> is_nullish (JNum (Finite 0)) \<and> JNum (Finite 0) \<noteq> JStr []
   \<and> ''a'' \<in> errors (onChange env_ab ''a'' (JNum (Finite 0)) state_marked)
   \<and> has_value (formData (onChange env_ab ''a'' (JNum (Finite 0)) state_marked)) ''a''
   \<and> snd (onVerify env_ab (onChange env_ab ''a'' (JNum (Finite 0)) state_marked)) = Inr True
   \<and> \<not> is_nullish (JBool False) \<and> JBool False \<noteq> JStr []
   \<and> ''a'' \<in> errors (onChange env_ab ''a'' (JBool False) state_marked)"
proof -
  have "snd (onVerify env_ab (onChange env_ab ''a'' (JNum (Finite 0)) state_marked)) = Inr True"
    by (simp add: onChange_def state_marked_eq onVerify_def visibleFields_def env_ab_def
        field_a_def field_b_def prop_of_def Let_def)
  then show ?thesis
    by (simp add: onChange_errors onChange_formData has_value_def state_marked_eq)
qed

subsection \<open>An edit that keeps the error flag\<close>

text \<open>
  Claim C9. An edit removes the field's id from the error set only when the new value is
  neither null nor empty, and touches no other id. In particular an edit to the empty
  string leaves the error set as it was, so a marked field stays marked, while the empty
  string is stored in the draft and, once the deferred write has run, in the persisted
  entry (the persisted mapping is then what JSON keeps of the captured mapping with the
  edited draft under the form's key); the field then has a non-null entry and a following
  \<open>onVerify\<close> does not mark it.
\<close>

theorem onChange_keeps_error_unless_filled:
  "(fieldId \<in> errors s \<and> fieldId \<notin> errors (onChange env fieldId v s)
      \<longrightarrow> \<not> is_nullish v \<and> v \<noteq> JStr [] \<and> \<not> loose_eq_empty v)
   \<and> errors (onChange env fieldId v s) - {fieldId} = errors s - {fieldId}
   \<and> errors (onChange env fieldId (JStr []) s) = errors s
   \<and> formData (onChange env fieldId (JStr []) s) = (formData s)(fieldId \<mapsto> JStr [])
   \<and> formDataMap (fire env (length (pending s)) (onChange env fieldId (JStr []) s)) =
       json_store ((formDataMap s)(localKey env \<mapsto> (formData s)(fieldId \<mapsto> JStr [])))
   \<and> (\<exists>d. formDataMap (fire env (length (pending s)) (onChange env fieldId (JStr []) s))
              (localKey env) = Some d
          \<and> d fieldId = Some (JStr []))
   \<and> has_value (formData (onChange env fieldId (JStr []) s)) fieldId
   \<and> fieldId \<notin> errors (fst (onVerify env (onChange env fieldId (JStr []) s)))"
proof -
  have removed: "fieldId \<in> errors s \<and> fieldId \<notin> errors (onChange env fieldId v s)
      \<longrightarrow> \<not> is_nullish v \<and> v \<noteq> JStr [] \<and> \<not> loose_eq_empty v"
    by (auto simp: onChange_errors split: if_splits)
  have others: "errors (onChange env fieldId v s) - {fieldId} = errors s - {fieldId}"
    by (auto simp: onChange_errors)
  have kept: "errors (onChange env fieldId (JStr []) s) = errors s"
    by (simp add: onChange_errors)
  have draft: "formData (onChange env fieldId (JStr []) s) = (formData s)(fieldId \<mapsto> JStr [])"
    by (simp add: onChange_formData)
  have written: "formDataMap (fire env (length (pending s)) (onChange env fieldId (JStr []) s)) =
      json_store ((formDataMap s)(localKey env \<mapsto> (formData s)(fieldId \<mapsto> JStr [])))"
    by (simp add: onChange_write)
  then have entry: "\<exists>d. formDataMap (fire env (length (pending s)) (onChange env fieldId (JStr []) s))
              (localKey env) = Some d
          \<and> d fieldId = Some (JStr [])"
    by (simp add: json_kept)
  have filled: "has_value (formData (onChange env fieldId (JStr []) s)) fieldId"
    by (simp add: draft has_value_def)
  then have "\<not> is_nullish (prop_of (formData (onChange env fieldId (JStr []) s)) fieldId)"
    by (simp add: draft prop_of_def)
  then have "fieldId \<notin> errors (fst (onVerify env (onChange env fieldId (JStr []) s)))"
    using onVerify_marks_missing [of fieldId env "onChange env fieldId (JStr []) s"]
    by auto
  with removed others kept draft written entry filled show ?thesis
    by blast
qed

theorem onChange_keeps_error_unless_filled_witness:
  "''a'' \<in> errors state_marked
   \<and> ''a'' \<notin> errors (onChange env_ab ''a'' (JStr ''x'') state_marked)
   \<and> \<not> is_nullish (JStr ''x'') \<and> JStr ''x'' \<noteq> JStr []
   \<and> ''a'' \<in> errors (onChange env_ab ''a'' (JStr []) state_marked)
   \<and> formData (onChange env_ab ''a'' (JStr []) state_marked) ''a'' = Some (JStr [])
   \<and> formDataMap (fire env_ab 0 (onChange env_ab ''a'' (JStr []) state_marked)) ''tbl1_viw1'' =
       Some [''a'' \<mapsto> JStr []]
   \<and> ''a'' \<notin> errors (fst (onVerify env_ab (onChange env_ab ''a'' (JStr []) state_marked)))"
proof -
  have marked: "''a'' \<in> errors state_marked" and none: "pending state_marked = []"
    and key: "localKey env_ab = ''tbl1_viw1''" and draft: "formData state_marked = Map.empty"
    and stored: "formDataMap state_marked = Map.empty"
    by (simp_all add: state_marked_eq env_ab_def)
  have gone: "''a'' \<notin> errors (onChange env_ab ''a'' (JStr ''x'') state_marked)"
    by (simp add: onChange_errors)
  from onChange_keeps_error_unless_filled [of "''a''" state_marked env_ab "JStr ''x''"]
    marked gone
  show ?thesis
    by (simp add: none key draft stored json_kept)
qed

section \<open>The persisted mapping\<close>

subsection \<open>A null in the persisted entry\<close>

text \<open>For a field id without dot or bracket, an edit to null deletes the key from the draft
  and, once the deferred write has run, from the persisted entry.\<close>

lemma onChange_null_removes_plain_key:
  assumes "is_nullish v" and "CHR ''.'' \<notin> set fieldId" and "CHR ''['' \<notin> set fieldId"
  shows "formData (onChange env fieldId v s) = (formData s)(fieldId := None)"
    and "formDataMap (fire env (length (pending s)) (onChange env fieldId v s)) (localKey env) =
           Some ((json_draft (formData s))(fieldId := None))"
  using assms by (simp_all add: onChange_formData onChange_write omit_draft_plain json_kept)


subsection \<open>The entry of another form\<close>

text \<open>For a storage key without dot or bracket, \<open>onReset\<close> removes the form's own entry and
  leaves every other entry as JSON keeps it.\<close>

lemma onReset_plain_key:
  assumes "CHR ''.'' \<notin> set (localKey env)" and "CHR ''['' \<notin> set (localKey env)"
  shows "formDataMap (onReset env m s) (localKey env) = None"
    and "k \<noteq> localKey env \<Longrightarrow> formDataMap (onReset env m s) k = map_option json_draft (m k)"
  using assms by (simp_all add: onReset_def omit_store_plain json_store_def)

lemma split_dotted_example: "split_dotted ''tbl2_viw2.a'' = Some (''tbl2_viw2'', ''a'')"
  by (simp add: split_dotted_def)

text \<open>
  Claim C6, at a form whose storage key is \<open>tbl2_viw2.a\<close>, mounted while the persisted
  mapping holds the draft of another form under the distinct key \<open>tbl2_viw2\<close>. The form
  has no required field; it is submitted, the promise is fulfilled and the delayed reset
  runs. \<open>omit(formDataMap, [localKey])\<close> reads the key, under which the mapping has no
  entry, as the path from \<open>tbl2_viw2\<close> to \<open>a\<close>, and the other form's entry loses its
  field \<open>a\<close>.
\<close>

theorem reset_alters_other_entry:
  "''tbl2_viw2'' \<noteq> localKey env_dotted
   \<and> mount env_dotted stored_other = Some state_dotted
   \<and> formDataMap state_dotted ''tbl2_viw2'' = Some [''a'' \<mapsto> JStr ''z'']
   \<and> snd (onVerify env_dotted state_dotted) = Inr True
   \<and> formDataMap (run env_dotted [Submit, Fire 0, Fire 0] state_dotted) ''tbl2_viw2'' =
       Some Map.empty"
proof -
  have key: "localKey env_dotted = ''tbl2_viw2.a''"
    and call: "submit env_dotted = Some (\<lambda>d. Fulfilled)"
    by (simp_all add: env_dotted_def)
  have ok: "snd (onVerify env_dotted state_dotted) = Inr True"
    by (simp add: onVerify_def visibleFields_def env_dotted_def field_b_def Let_def)
  have none: "pending state_dotted = []" and stored: "formDataMap state_dotted = stored_other"
    by (simp_all add: state_dotted_def)
  have "omit_store env_dotted ''tbl2_viw2.a'' stored_other = [''tbl2_viw2'' \<mapsto> Map.empty]"
    by (simp add: omit_store_def single_key_def split_dotted_example stored_other_def
        inherited_def inherited_members_def)
  moreover have "formDataMap (fire env_dotted 0 (fire env_dotted 0 (onSubmit env_dotted state_dotted))) =
      json_store (omit_store env_dotted (localKey env_dotted) (formDataMap state_dotted))"
    using submit_cycle(7) [OF ok call] none by simp
  ultimately have "formDataMap (run env_dotted [Submit, Fire 0, Fire 0] state_dotted) =
      [''tbl2_viw2'' \<mapsto> Map.empty]"
    by (simp add: run_def key stored json_kept)
  then show ?thesis
    using ok by (simp add: key mount_dotted) (simp add: state_dotted_def stored_other_def)
qed

end
